theory Spec2Isabelle
  imports Main "HOL-Library.AList"
begin

section \<open>JavaScript values and objects\<close>

text \<open>
  The store of \<^verbatim>\<open>src/config/dynamic.ts\<close> holds JavaScript values. The code compares them
  with \<^verbatim>\<open>!==\<close>, tests them with \<^verbatim>\<open>!options\<close> and \<^verbatim>\<open>typeof\<close>, and never looks inside a nested
  object, so an object-typed value is a reference (an address into the heap below) and
  two references are equal exactly when their addresses are. Numbers are integers plus
  \<^verbatim>\<open>NaN\<close>, the one value that \<^verbatim>\<open>!==\<close> tells apart from itself.
\<close>

type_synonym addr = nat

datatype jsval =
    JUndefined
  | JNull
  | JBool bool
  | JNum int
  | JNaN
  | JStr string
  | JRef addr
  | JFunction nat

fun typeof :: "jsval \<Rightarrow> string" where
  "typeof JUndefined = ''undefined''"
| "typeof JNull = ''object''"
| "typeof (JBool b) = ''boolean''"
| "typeof (JNum n) = ''number''"
| "typeof JNaN = ''number''"
| "typeof (JStr s) = ''string''"
| "typeof (JRef a) = ''object''"
| "typeof (JFunction f) = ''function''"

text \<open>\<^verbatim>\<open>!v\<close> is \<open>\<not> truthy v\<close>.\<close>

fun truthy :: "jsval \<Rightarrow> bool" where
  "truthy JUndefined = False"
| "truthy JNull = False"
| "truthy (JBool b) = b"
| "truthy (JNum n) = (n \<noteq> 0)"
| "truthy JNaN = False"
| "truthy (JStr s) = (s \<noteq> [])"
| "truthy (JRef a) = True"
| "truthy (JFunction f) = True"

text \<open>\<^verbatim>\<open>a !== b\<close>: different type or value, or \<^verbatim>\<open>NaN\<close> on either side; references by address.\<close>

definition strict_neq :: "jsval \<Rightarrow> jsval \<Rightarrow> bool" where
  "strict_neq a b = (a \<noteq> b \<or> a = JNaN)"

text \<open>
  An object on the heap: its own enumerable string-keyed properties in the order
  \<^verbatim>\<open>Object.entries\<close> lists them, and whether it is an array (whose entries are its indices)
  or a plain mapping. Field names are the keys of a plugin's configuration
  (\<^verbatim>\<open>keyof ConfigType<T>\<close>): reading a property reads an own property, and the members
  that every object inherits from \<^verbatim>\<open>Object.prototype\<close> are not field names.
\<close>

datatype objkind = PlainObject | ArrayObject

type_synonym entries = "(string \<times> jsval) list"

record jsobject =
  kind :: objkind
  props :: entries

text \<open>\<^verbatim>\<open>obj[key]\<close>: the property, or \<^verbatim>\<open>undefined\<close> when there is none.\<close>

definition get_prop :: "entries \<Rightarrow> string \<Rightarrow> jsval" where
  "get_prop ps key = (case map_of ps key of None \<Rightarrow> JUndefined | Some v \<Rightarrow> v)"

text \<open>
  \<^verbatim>\<open>obj[key] = value\<close>: replaces the property where it stands, or adds it at the end.
  (JavaScript lists a new integer-like key before the other keys instead. The store never
  lists the keys of its live object, and the statements below read it key by key wherever
  such a key occurs.)
\<close>

definition set_prop :: "string \<Rightarrow> jsval \<Rightarrow> entries \<Rightarrow> entries" where
  "set_prop key v ps = AList.update key v ps"

text \<open>\<^verbatim>\<open>{ ...target, ...source }\<close>: every property of the source is assigned in turn.\<close>

definition spread :: "entries \<Rightarrow> entries \<Rightarrow> entries" where
  "spread source target = fold (\<lambda>(k, v). set_prop k v) source target"

section \<open>The store and its collaborators\<close>

text \<open>
  A subscriber is a function value. The code only ever calls it, so it is an opaque
  identifier, or one of the two closures that \<^verbatim>\<open>setupFront\<close> builds, which send their
  argument to the front on a channel. Calls to subscribers and to the collaborators
  \<^verbatim>\<open>setOptions\<close> and \<^verbatim>\<open>setMenuOptions\<close> of \<^verbatim>\<open>./plugins\<close> are recorded, oldest first, in a
  trace; each call that receives \<^verbatim>\<open>this.config\<close> is recorded with the address and with
  the properties the live object has at that moment. Subscribers are taken not to call
  back into the store while they run.
\<close>

datatype callback = Callback nat | SendToFront string

datatype event =
    Notify callback jsval
  | NotifyAll callback addr entries
  | SetOptions string addr entries
  | SetMenuOptions string addr entries

datatype listener = OnSubscribe | OnSubscribeAll

datatype error = Error string

record PluginConfigOptions =
  enableFront :: bool
  initialOptions :: "addr option"

record state =
  heap :: "addr \<Rightarrow> jsobject"
  nextAddr :: addr
  name :: string
  config :: addr
  defaultConfig :: addr
  this_enableFront :: bool
  subscribers :: "string \<rightharpoonup> callback"
  allSubscribers :: "callback list"
  activePlugins :: "string set"
  ipcHandlers :: "(string \<times> string) list"
  ipcListeners :: "(string \<times> listener) list"
  trace :: "event list"

text \<open>The properties of the live object \<^verbatim>\<open>this.config\<close>.\<close>

definition live :: "state \<Rightarrow> entries" where
  "live s = props (heap s (config s))"

definition log_event :: "event \<Rightarrow> state \<Rightarrow> state" where
  "log_event e s = s\<lparr>trace := trace s @ [e]\<rparr>"

text \<open>An object literal: a new plain object at the next free address.\<close>

definition alloc :: "entries \<Rightarrow> state \<Rightarrow> addr \<times> state" where
  "alloc ps s =
     (nextAddr s,
      s\<lparr>heap := (heap s)(nextAddr s := \<lparr>kind = PlainObject, props = ps\<rparr>),
        nextAddr := Suc (nextAddr s)\<rparr>)"

text \<open>\<^verbatim>\<open>this.config[key] = value\<close>\<close>

definition write_config :: "string \<Rightarrow> jsval \<Rightarrow> state \<Rightarrow> state" where
  "write_config key v s =
     s\<lparr>heap := (heap s)(config s := (heap s (config s))\<lparr>props := set_prop key v (live s)\<rparr>)\<rparr>"

subsection \<open>Notification and persistence\<close>

text \<open>\<^verbatim>\<open>for (const fn of this.allSubscribers) fn(this.config)\<close>\<close>

fun call_allSubscribers :: "callback list \<Rightarrow> state \<Rightarrow> state" where
  "call_allSubscribers [] s = s"
| "call_allSubscribers (fn # fns) s =
     call_allSubscribers fns (log_event (NotifyAll fn (config s) (live s)) s)"

definition onChange :: "string \<Rightarrow> bool \<Rightarrow> state \<Rightarrow> state" where
  "onChange valueName single s =
     (let s1 = (case subscribers s valueName of
                  None \<Rightarrow> s
                | Some fn \<Rightarrow> log_event (Notify fn (get_prop (live s) valueName)) s)
      in if single then call_allSubscribers (allSubscribers s1) s1 else s1)"

definition save :: "state \<Rightarrow> state" where
  "save s = log_event (SetOptions (name s) (config s) (live s)) s"

subsection \<open>Reading and writing\<close>

definition get :: "string \<Rightarrow> state \<Rightarrow> jsval" where
  "get key s = get_prop (live s) key"

definition set_key :: "string \<Rightarrow> jsval \<Rightarrow> state \<Rightarrow> state" where
  "set_key key v s = save (onChange key True (write_config key v s))"

definition getAll :: "state \<Rightarrow> addr \<times> state" where
  "getAll s = alloc (spread (live s) []) s"

text \<open>
  \<^verbatim>\<open>Object.entries(options)\<close>, taken once before the loop of \<^verbatim>\<open>setAll\<close> starts. The loop
  is only reached with a reference.
\<close>

definition Object_entries :: "state \<Rightarrow> jsval \<Rightarrow> entries" where
  "Object_entries s v = (case v of JRef a \<Rightarrow> props (heap s a) | _ \<Rightarrow> [])"

fun setAll_loop :: "entries \<Rightarrow> bool \<Rightarrow> state \<Rightarrow> bool \<times> state" where
  "setAll_loop [] changed s = (changed, s)"
| "setAll_loop ((key, v) # es) changed s =
     (if strict_neq (get_prop (live s) key) v
      then setAll_loop es True
             (onChange key False (if v \<noteq> JUndefined then write_config key v s else s))
      else setAll_loop es changed s)"

definition setAll :: "jsval \<Rightarrow> state \<Rightarrow> (error + unit) \<times> state" where
  "setAll options s =
     (if \<not> truthy options \<or> typeof options \<noteq> ''object''
      then (Inl (Error ''Options must be an object.''), s)
      else
        (let (changed, s1) = setAll_loop (Object_entries s options) False s;
             s2 = (if changed then call_allSubscribers (allSubscribers s1) s1 else s1)
         in (Inr (), save s2)))"

definition getDefaultConfig :: "state \<Rightarrow> addr" where
  "getDefaultConfig s = defaultConfig s"

definition setAndMaybeRestart :: "string \<Rightarrow> jsval \<Rightarrow> state \<Rightarrow> state" where
  "setAndMaybeRestart key v s =
     (let s1 = write_config key v s;
          s2 = log_event (SetMenuOptions (name s1) (config s1) (live s1)) s1
      in onChange key True s2)"

definition subscribe :: "string \<Rightarrow> callback \<Rightarrow> state \<Rightarrow> state" where
  "subscribe valueName fn s = s\<lparr>subscribers := (subscribers s)(valueName \<mapsto> fn)\<rparr>"

definition subscribeAll :: "callback \<Rightarrow> state \<Rightarrow> state" where
  "subscribeAll fn s = s\<lparr>allSubscribers := allSubscribers s @ [fn]\<rparr>"

subsection \<open>Projection to the front\<close>

text \<open>
  \<^verbatim>\<open>Object.entries(this)\<close> lists the own enumerable properties of the instance. These are
  its six fields: the two initialised in the class body, then those the constructor has
  assigned when it calls \<^verbatim>\<open>setupFront\<close>. The methods of the class are properties of its
  prototype and are not listed. A member is a value, one of the two subscriber
  containers (objects), or a function with its \<^verbatim>\<open>name\<close>.
\<close>

datatype member = Value jsval | Container | Method string

fun typeof_member :: "member \<Rightarrow> string" where
  "typeof_member (Value v) = typeof v"
| "typeof_member Container = ''object''"
| "typeof_member (Method n) = ''function''"

fun fn_name :: "member \<Rightarrow> string" where
  "fn_name (Method n) = n"
| "fn_name _ = []"

definition Object_entries_this :: "state \<Rightarrow> (string \<times> member) list" where
  "Object_entries_this s =
     [(''subscribers'', Container),
      (''allSubscribers'', Container),
      (''name'', Value (JStr (name s))),
      (''enableFront'', Value (JBool (this_enableFront s))),
      (''defaultConfig'', Value (JRef (defaultConfig s))),
      (''config'', Value (JRef (config s)))]"

text \<open>
  \<^verbatim>\<open>fn.name in ignoredMethods\<close> with \<^verbatim>\<open>ignoredMethods = ['subscribe', 'subscribeAll']\<close>:
  the operator \<^verbatim>\<open>in\<close> asks whether the left side is a property name of the array, that
  is one of its indices, \<^verbatim>\<open>length\<close>, or a name it inherits (the parameter \<open>inherited\<close>,
  the property names of \<^verbatim>\<open>Array.prototype\<close> and \<^verbatim>\<open>Object.prototype\<close>).
\<close>

definition in_ignoredMethods :: "string list \<Rightarrow> string \<Rightarrow> bool" where
  "in_ignoredMethods inherited n = (n \<in> set ([''0'', ''1'', ''length''] @ inherited))"

text \<open>
  The loop of \<^verbatim>\<open>setupFront\<close>. Its \<^verbatim>\<open>return\<close> leaves the whole method: the first component
  of the result says whether that happened. A handler \<^verbatim>\<open>(_, ...args) => fn(...args)\<close> is
  recorded as the channel and the property name of \<^verbatim>\<open>fn\<close>.
\<close>

fun setupFront_loop :: "string list \<Rightarrow> (string \<times> member) list \<Rightarrow> state \<Rightarrow> bool \<times> state" where
  "setupFront_loop inherited [] s = (False, s)"
| "setupFront_loop inherited ((fnName, fn) # es) s =
     (if typeof_member fn \<noteq> ''function'' \<or> in_ignoredMethods inherited (fn_name fn)
      then (True, s)
      else setupFront_loop inherited es
             (s\<lparr>ipcHandlers := ipcHandlers s @ [(name s @ ''-config-'' @ fnName, fnName)]\<rparr>))"

definition setupFront :: "string list \<Rightarrow> state \<Rightarrow> state" where
  "setupFront inherited s =
     (let (returned, s1) = setupFront_loop inherited (Object_entries_this s) s
      in if returned then s1
         else s1\<lparr>ipcListeners := ipcListeners s1 @
                   [(name s1 @ ''-config-subscribe'', OnSubscribe),
                    (name s1 @ ''-config-subscribe-all'', OnSubscribeAll)]\<rparr>)"

text \<open>What the two listeners do when a message arrives on their channel.\<close>

fun run_listener :: "listener \<Rightarrow> string \<Rightarrow> state \<Rightarrow> state" where
  "run_listener OnSubscribe valueName s =
     subscribe valueName (SendToFront (name s @ ''-config-changed-'' @ valueName)) s"
| "run_listener OnSubscribeAll valueName s =
     subscribeAll (SendToFront (name s @ ''-config-changed'')) s"

subsection \<open>Construction and the registry\<close>

text \<open>
  The constructor reads two collaborators that are parameters here: the table
  \<^verbatim>\<open>defaultConfig.plugins\<close> of \<^verbatim>\<open>./defaults\<close> and the function \<^verbatim>\<open>getOptions\<close> of
  \<^verbatim>\<open>./plugins\<close>. Both yield an object or \<^verbatim>\<open>undefined\<close>, as does \<^verbatim>\<open>options.initialOptions\<close>;
  an object is truthy, so \<^verbatim>\<open>||\<close> and \<^verbatim>\<open>??\<close> take the first one that is there.
\<close>

definition PluginConfig_constructor ::
  "(string \<rightharpoonup> addr) \<Rightarrow> (string \<Rightarrow> addr option) \<Rightarrow> string list \<Rightarrow>
   string \<Rightarrow> PluginConfigOptions \<Rightarrow> state \<Rightarrow> state" where
  "PluginConfig_constructor plugins getOptions inherited n options s0 =
     (let s1 = s0\<lparr>subscribers := Map.empty, allSubscribers := []\<rparr>;
          (pluginDefaultConfig, s2) =
             (case plugins n of Some d \<Rightarrow> (d, s1) | None \<Rightarrow> alloc [] s1);
          (pluginConfig, s3) =
             (case initialOptions options of
                Some a \<Rightarrow> (a, s2)
              | None \<Rightarrow> (case getOptions n of Some a \<Rightarrow> (a, s2) | None \<Rightarrow> alloc [] s2));
          s4 = s3\<lparr>name := n, this_enableFront := enableFront options,
                  defaultConfig := pluginDefaultConfig\<rparr>;
          (c, s5) = alloc (spread (props (heap s4 pluginConfig))
                             (spread (props (heap s4 pluginDefaultConfig)) [])) s4;
          s6 = s5\<lparr>config := c\<rparr>;
          s7 = (if this_enableFront s6 then setupFront inherited s6 else s6)
      in s7\<lparr>activePlugins := insert n (activePlugins s7)\<rparr>)"

text \<open>
  The options a constructor call without a second argument gets, and the module's own
  start: the registry is empty, and in the main process (\<^verbatim>\<open>process.type === 'browser'\<close>)
  a handler answers \<^verbatim>\<open>get-active-plugins\<close>.
\<close>

definition default_options :: PluginConfigOptions where
  "default_options = \<lparr>enableFront = False, initialOptions = None\<rparr>"

definition module_init :: "bool \<Rightarrow> state \<Rightarrow> state" where
  "module_init browser s =
     (let s1 = s\<lparr>activePlugins := {}\<rparr>
      in if browser
         then s1\<lparr>ipcHandlers := ipcHandlers s1 @ [(''get-active-plugins'', ''getActivePlugins'')]\<rparr>
         else s1)"

definition getActivePlugins :: "state \<Rightarrow> string set" where
  "getActivePlugins s = activePlugins s"

definition isActive :: "string \<Rightarrow> state \<Rightarrow> bool" where
  "isActive plugin s = (plugin \<in> activePlugins s)"

section \<open>Observations\<close>

text \<open>
  The statements below read the trace through these functions. The call of the per-key
  subscriber of a field, if it has one, with a given argument; the calls of all
  all-subscribers, in their order, each with the live object.
\<close>

definition subscriber_call :: "state \<Rightarrow> string \<Rightarrow> jsval \<Rightarrow> event list" where
  "subscriber_call s key v = (case subscribers s key of None \<Rightarrow> [] | Some fn \<Rightarrow> [Notify fn v])"

definition fan_out :: "state \<Rightarrow> entries \<Rightarrow> event list" where
  "fan_out s obj = map (\<lambda>fn. NotifyAll fn (config s) obj) (allSubscribers s)"

text \<open>
  The loop of \<^verbatim>\<open>setAll\<close> seen from the live object alone: the properties it leaves, and
  the per-key calls it makes, entry after entry.
\<close>

fun loop_live :: "entries \<Rightarrow> entries \<Rightarrow> entries" where
  "loop_live [] ps = ps"
| "loop_live ((key, v) # es) ps =
     loop_live es (if strict_neq (get_prop ps key) v \<and> v \<noteq> JUndefined then set_prop key v ps else ps)"

fun loop_events :: "state \<Rightarrow> entries \<Rightarrow> entries \<Rightarrow> event list" where
  "loop_events s [] ps = []"
| "loop_events s ((key, v) # es) ps =
     (if strict_neq (get_prop ps key) v
      then (let ps' = (if v \<noteq> JUndefined then set_prop key v ps else ps)
            in subscriber_call s key (get_prop ps' key) @ loop_events s es ps')
      else loop_events s es ps)"

text \<open>
  One entry of a patch against a given live object: whether its value differs from the
  stored one under \<^verbatim>\<open>!==\<close>, and the per-key call it then causes.
\<close>

definition entry_differs :: "entries \<Rightarrow> string \<times> jsval \<Rightarrow> bool" where
  "entry_differs ps e = strict_neq (get_prop ps (fst e)) (snd e)"

definition entry_events :: "state \<Rightarrow> entries \<Rightarrow> string \<times> jsval \<Rightarrow> event list" where
  "entry_events s ps e =
     (if strict_neq (get_prop ps (fst e)) (snd e)
      then subscriber_call s (fst e) (if snd e = JUndefined then get_prop ps (fst e) else snd e)
      else [])"

text \<open>The calls of \<^verbatim>\<open>setOptions\<close> in a trace, with the plugin name and the object saved.\<close>

fun persisted :: "event \<Rightarrow> (string \<times> entries) list" where
  "persisted (SetOptions n a ps) = [(n, ps)]"
| "persisted _ = []"

definition persist_calls :: "event list \<Rightarrow> (string \<times> entries) list" where
  "persist_calls t = concat (map persisted t)"

text \<open>
  What the constructor merges over the defaults (\<^verbatim>\<open>initialOptions\<close> if given, else what
  \<^verbatim>\<open>getOptions\<close> returns), the properties of an object that may be absent, and the
  condition that a reference handed to the constructor points into the allocated part of
  the heap.
\<close>

definition overrideSource :: "(string \<Rightarrow> addr option) \<Rightarrow> string \<Rightarrow> PluginConfigOptions \<Rightarrow> addr option" where
  "overrideSource getOptions n options =
     (case initialOptions options of Some a \<Rightarrow> Some a | None \<Rightarrow> getOptions n)"

definition source_entries :: "state \<Rightarrow> addr option \<Rightarrow> entries" where
  "source_entries s r = (case r of None \<Rightarrow> [] | Some a \<Rightarrow> props (heap s a))"

definition allocated :: "state \<Rightarrow> addr option \<Rightarrow> bool" where
  "allocated s r = (case r of None \<Rightarrow> True | Some a \<Rightarrow> a < nextAddr s)"

text \<open>A sequence of mutating calls; a \<^verbatim>\<open>setAll\<close> that throws leaves the state as it was.\<close>

datatype call = Set string jsval | SetAll jsval | SetAndMaybeRestart string jsval

fun do_call :: "call \<Rightarrow> state \<Rightarrow> state" where
  "do_call (Set key v) s = set_key key v s"
| "do_call (SetAll options) s = snd (setAll options s)"
| "do_call (SetAndMaybeRestart key v) s = setAndMaybeRestart key v s"

definition do_calls :: "call list \<Rightarrow> state \<Rightarrow> state" where
  "do_calls cs s = fold do_call cs s"

text \<open>
  A store for the examples: defaults at address 0, the live object at 1, two patches at
  2 and 4, an array at 3; a per-key subscriber for each of \<^verbatim>\<open>a\<close> and \<^verbatim>\<open>b\<close> and one
  all-subscriber.
\<close>

definition demo :: state where
  "demo =
     \<lparr>heap = (\<lambda>a. \<lparr>kind = PlainObject, props = []\<rparr>)
        (0 := \<lparr>kind = PlainObject, props = [(''a'', JNum 0), (''b'', JNum 2)]\<rparr>,
         1 := \<lparr>kind = PlainObject, props = [(''a'', JNum 0), (''b'', JNum 2)]\<rparr>,
         2 := \<lparr>kind = PlainObject, props = [(''a'', JNum 1), (''b'', JNum 2)]\<rparr>,
         3 := \<lparr>kind = ArrayObject, props = [(''0'', JNum 5)]\<rparr>,
         4 := \<lparr>kind = PlainObject, props = [(''a'', JUndefined)]\<rparr>),
      nextAddr = 5,
      name = ''demo'',
      config = 1,
      defaultConfig = 0,
      this_enableFront = False,
      subscribers = [''a'' \<mapsto> Callback 1, ''b'' \<mapsto> Callback 2],
      allSubscribers = [Callback 3],
      activePlugins = {''demo''},
      ipcHandlers = [],
      ipcListeners = [],
      trace = []\<rparr>"

section \<open>Lemmas\<close>

subsection \<open>Fields after a step\<close>

lemma log_event_fields [simp]:
  "heap (log_event e s) = heap s"
  "nextAddr (log_event e s) = nextAddr s"
  "name (log_event e s) = name s"
  "config (log_event e s) = config s"
  "defaultConfig (log_event e s) = defaultConfig s"
  "subscribers (log_event e s) = subscribers s"
  "allSubscribers (log_event e s) = allSubscribers s"
  "trace (log_event e s) = trace s @ [e]"
  "live (log_event e s) = live s"
  by (simp_all add: log_event_def live_def)

lemma write_config_fields [simp]:
  "nextAddr (write_config k v s) = nextAddr s"
  "name (write_config k v s) = name s"
  "config (write_config k v s) = config s"
  "defaultConfig (write_config k v s) = defaultConfig s"
  "subscribers (write_config k v s) = subscribers s"
  "allSubscribers (write_config k v s) = allSubscribers s"
  "trace (write_config k v s) = trace s"
  "live (write_config k v s) = set_prop k v (live s)"
  by (simp_all add: write_config_def live_def)

lemma call_allSubscribers_eq:
  "call_allSubscribers fns s = s\<lparr>trace := trace s @ map (\<lambda>fn. NotifyAll fn (config s) (live s)) fns\<rparr>"
  by (induction fns arbitrary: s) (simp_all add: log_event_def live_def)

lemma get_prop_set_prop: "get_prop (set_prop k v ps) k' = (if k' = k then v else get_prop ps k')"
  by (simp add: get_prop_def set_prop_def update_conv')

lemma map_of_set_prop: "map_of (set_prop k v ps) = (map_of ps)(k \<mapsto> v)"
  by (simp add: set_prop_def update_conv')

lemma setupFront_loop_returns:
  "typeof_member fn \<noteq> ''function'' \<Longrightarrow>
   setupFront_loop inherited ((fnName, fn) # es) s = (True, s)"
  by simp

lemma setupFront_id: "setupFront inherited s = s"
  by (simp add: setupFront_def Object_entries_this_def)

lemma onChange_eq:
  "onChange key single s =
     s\<lparr>trace := trace s @ subscriber_call s key (get_prop (live s) key) @
                (if single then fan_out s (live s) else [])\<rparr>"
  by (simp add: onChange_def subscriber_call_def fan_out_def call_allSubscribers_eq log_event_def live_def
           split: option.split)

lemma state_heap_trace_id:
  "s\<lparr>heap := (heap s)(config s := (heap s (config s))\<lparr>props := live s\<rparr>), trace := trace s @ []\<rparr> = s"
proof -
  have "(heap s)(config s := (heap s (config s))\<lparr>props := live s\<rparr>) = heap s"
    by (rule ext) (simp add: live_def)
  then show ?thesis unfolding append_Nil2 by simp
qed

lemma subscriber_call_frame [simp]:
  "subscriber_call (s\<lparr>heap := h\<rparr>) k v = subscriber_call s k v"
  "subscriber_call (s\<lparr>trace := t\<rparr>) k v = subscriber_call s k v"
  "subscriber_call (write_config k' v' s) k v = subscriber_call s k v"
  by (simp_all add: subscriber_call_def)

lemma loop_events_frame [simp]:
  "loop_events (s\<lparr>heap := h\<rparr>) es ps = loop_events s es ps"
  "loop_events (s\<lparr>trace := t\<rparr>) es ps = loop_events s es ps"
  by (induction es arbitrary: ps) (auto simp: Let_def)

subsection \<open>The loop of setAll\<close>

lemma setAll_loop_eq:
  "setAll_loop es c s =
     (c \<or> list_ex (entry_differs (live s)) es,
      s\<lparr>heap := (heap s)(config s := (heap s (config s))\<lparr>props := loop_live es (live s)\<rparr>),
        trace := trace s @ loop_events s es (live s)\<rparr>)"
proof (induction es arbitrary: c s)
  case Nil
  show ?case
    by (simp only: setAll_loop.simps list_ex_Nil_iff loop_live.simps loop_events.simps
          state_heap_trace_id simp_thms)
next
  case (Cons e es)
  obtain key v where e: "e = (key, v)" by (cases e)
  show ?case
  proof (cases "strict_neq (get_prop (live s) key) v")
    case False
    then show ?thesis using Cons.IH [of c s] by (simp add: e entry_differs_def)
  next
    case True
    let ?s1 = "onChange key False (if v \<noteq> JUndefined then write_config key v s else s)"
    let ?ps = "if v \<noteq> JUndefined then set_prop key v (live s) else live s"
    have step: "setAll_loop (e # es) c s = setAll_loop es True ?s1"
      using True by (simp add: e)
    have ih: "setAll_loop es True ?s1 =
       (True \<or> list_ex (entry_differs (live ?s1)) es,
        ?s1\<lparr>heap := (heap ?s1)(config ?s1 := (heap ?s1 (config ?s1))\<lparr>props := loop_live es (live ?s1)\<rparr>),
           trace := trace ?s1 @ loop_events ?s1 es (live ?s1)\<rparr>)"
      by (rule Cons.IH)
    have l1: "live ?s1 = ?ps"
      by (simp add: onChange_eq live_def write_config_def)
    have c1: "config ?s1 = config s"
      by (simp add: onChange_eq)
    have t1: "trace ?s1 = trace s @ subscriber_call s key (get_prop ?ps key)"
      by (simp add: onChange_eq)
    have e1: "loop_events ?s1 es ?ps = loop_events s es ?ps"
      by (simp add: onChange_eq write_config_def)
    have r1: "?s1\<lparr>heap := (heap ?s1)(config s := (heap ?s1 (config s))\<lparr>props := L\<rparr>), trace := T\<rparr>
            = s\<lparr>heap := (heap s)(config s := (heap s (config s))\<lparr>props := L\<rparr>), trace := T\<rparr>" for L T
      by (simp add: onChange_eq write_config_def)
    show ?thesis
      unfolding step ih l1 c1 t1 e1 r1
      using True by (simp add: e Let_def fun_upd_def entry_differs_def)
  qed
qed

lemma entry_events_cong:
  assumes "k \<notin> fst ` set es"
  shows "map (entry_events s (set_prop k v ps)) es = map (entry_events s ps) es"
  using assms by (intro map_cong refl) (auto simp: entry_events_def get_prop_set_prop)

lemma loop_events_distinct:
  "distinct (map fst es) \<Longrightarrow> loop_events s es ps = concat (map (entry_events s ps) es)"
proof (induction es arbitrary: ps)
  case Nil
  show ?case by simp
next
  case (Cons e es)
  obtain key v where e: "e = (key, v)" by (cases e)
  from Cons.prems have notin: "key \<notin> fst ` set es" and d: "distinct (map fst es)"
    by (simp_all add: e)
  have tl: "concat (map (entry_events s (set_prop key v ps)) es) = concat (map (entry_events s ps) es)"
    by (simp only: entry_events_cong [OF notin])
  have hd: "entry_events s ps (key, v) =
      (if strict_neq (get_prop ps key) v
       then subscriber_call s key (if v = JUndefined then get_prop ps key else v) else [])"
    by (simp add: entry_events_def)
  show ?case
    by (simp add: e Let_def Cons.IH [OF d] tl hd get_prop_set_prop)
qed

lemma map_of_loop_live:
  "distinct (map fst es) \<Longrightarrow>
   map_of (loop_live es ps) k =
     (case map_of es k of
        None \<Rightarrow> map_of ps k
      | Some v \<Rightarrow> if strict_neq (get_prop ps k) v \<and> v \<noteq> JUndefined then Some v else map_of ps k)"
proof (induction es arbitrary: ps)
  case Nil
  show ?case by simp
next
  case (Cons e es)
  obtain key v where e: "e = (key, v)" by (cases e)
  from Cons.prems have notin: "key \<notin> fst ` set es" and d: "distinct (map fst es)"
    by (simp_all add: e)
  have none: "map_of es key = None"
    using notin by (simp add: map_of_eq_None_iff)
  show ?case
    using Cons.IH [OF d] none
    by (auto simp: e map_of_set_prop get_prop_set_prop split: option.splits)
qed

lemma setAll_ref:
  "setAll (JRef a) s =
     (Inr (),
      s\<lparr>heap := (heap s)(config s := (heap s (config s))\<lparr>props := loop_live (props (heap s a)) (live s)\<rparr>),
        trace := trace s @ loop_events s (props (heap s a)) (live s) @
                 (if list_ex (entry_differs (live s)) (props (heap s a))
                  then fan_out s (loop_live (props (heap s a)) (live s)) else []) @
                 [SetOptions (name s) (config s) (loop_live (props (heap s a)) (live s))]\<rparr>)"
  by (simp add: setAll_def Object_entries_def setAll_loop_eq save_def log_event_def
        call_allSubscribers_eq fan_out_def live_def)

lemma setAll_ref_proj:
  "fst (setAll (JRef a) s) = Inr ()"
  "live (snd (setAll (JRef a) s)) = loop_live (props (heap s a)) (live s)"
  "trace (snd (setAll (JRef a) s)) =
     trace s @ loop_events s (props (heap s a)) (live s) @
     (if list_ex (entry_differs (live s)) (props (heap s a))
      then fan_out s (loop_live (props (heap s a)) (live s)) else []) @
     [SetOptions (name s) (config s) (loop_live (props (heap s a)) (live s))]"
  by (simp_all add: setAll_ref live_def)

lemma loop_no_difference:
  "\<not> list_ex (entry_differs ps) es \<Longrightarrow> loop_live es ps = ps \<and> loop_events s es ps = []"
  by (induction es) (auto simp: entry_differs_def)

lemma setAll_frame:
  "config (snd (setAll v s)) = config s \<and>
   defaultConfig (snd (setAll v s)) = defaultConfig s \<and>
   (a \<noteq> config s \<longrightarrow> heap (snd (setAll v s)) a = heap s a)"
proof (cases "\<exists>r. v = JRef r")
  case True
  then show ?thesis by (auto simp: setAll_ref)
next
  case False
  then have "setAll v s = (Inl (Error ''Options must be an object.''), s)"
    by (cases v) (simp_all add: setAll_def)
  then show ?thesis by simp
qed

subsection \<open>Persistence calls in a trace\<close>

lemma persist_calls_simps [simp]:
  "persist_calls [] = []"
  "persist_calls (t @ u) = persist_calls t @ persist_calls u"
  "persist_calls (e # t) = persisted e @ persist_calls t"
  "persist_calls (subscriber_call s k v) = []"
  "persist_calls (fan_out s ps) = []"
  by (auto simp: persist_calls_def subscriber_call_def fan_out_def split: option.split)

lemma persist_calls_entry_events [simp]:
  "persist_calls (concat (map (entry_events s ps) es)) = []"
  by (induction es) (simp_all add: entry_events_def)

lemma persist_calls_loop_events [simp]:
  "persist_calls (loop_events s es ps) = []"
  by (induction es arbitrary: ps) (auto simp: Let_def)

subsection \<open>The single-key mutators\<close>

lemma set_key_eq:
  "set_key key v s =
     s\<lparr>heap := (heap s)(config s := (heap s (config s))\<lparr>props := set_prop key v (live s)\<rparr>),
       trace := trace s @ subscriber_call s key v @ fan_out s (set_prop key v (live s)) @
                [SetOptions (name s) (config s) (set_prop key v (live s))]\<rparr>"
  by (simp add: set_key_def save_def onChange_eq log_event_def write_config_def live_def
        subscriber_call_def fan_out_def get_prop_set_prop)

lemma setAndMaybeRestart_eq:
  "setAndMaybeRestart key v s =
     s\<lparr>heap := (heap s)(config s := (heap s (config s))\<lparr>props := set_prop key v (live s)\<rparr>),
       trace := trace s @ [SetMenuOptions (name s) (config s) (set_prop key v (live s))] @
                subscriber_call s key v @ fan_out s (set_prop key v (live s))\<rparr>"
  by (simp add: setAndMaybeRestart_def onChange_eq log_event_def write_config_def live_def
        subscriber_call_def fan_out_def get_prop_set_prop Let_def split: option.split)

subsection \<open>Sequences of calls\<close>

lemma do_call_frame:
  "config (do_call c s) = config s \<and>
   defaultConfig (do_call c s) = defaultConfig s \<and>
   (a \<noteq> config s \<longrightarrow> heap (do_call c s) a = heap s a)"
proof (cases c)
  case (Set key v)
  then show ?thesis by (simp add: set_key_eq)
next
  case (SetAll options)
  then show ?thesis using setAll_frame [of options s a] by simp
next
  case (SetAndMaybeRestart key v)
  then show ?thesis by (simp add: setAndMaybeRestart_eq)
qed

lemma do_calls_frame:
  "config (do_calls cs s) = config s \<and>
   defaultConfig (do_calls cs s) = defaultConfig s \<and>
   (a \<noteq> config s \<longrightarrow> heap (do_calls cs s) a = heap s a)"
proof (induction cs arbitrary: s)
  case Nil
  show ?case by (simp add: do_calls_def)
next
  case (Cons c cs)
  have "do_calls (c # cs) s = do_calls cs (do_call c s)"
    by (simp add: do_calls_def)
  then show ?case
    using Cons.IH [of "do_call c s"] do_call_frame [of c s a] by simp
qed

subsection \<open>Construction\<close>

lemma update_fresh: "k \<notin> fst ` set al \<Longrightarrow> AList.update k v al = al @ [(k, v)]"
  by (induction al) auto

lemma spread_Nil [simp]: "spread [] t = t"
  by (simp add: spread_def)

lemma spread_Cons: "spread ((k, v) # ps) t = spread ps (set_prop k v t)"
  by (simp add: spread_def)

lemma spread_fresh:
  "distinct (map fst ps) \<Longrightarrow> fst ` set ps \<inter> fst ` set t = {} \<Longrightarrow> spread ps t = t @ ps"
proof (induction ps arbitrary: t)
  case Nil
  show ?case by simp
next
  case (Cons e ps)
  obtain k v where e: "e = (k, v)" by (cases e)
  from Cons.prems have fresh: "k \<notin> fst ` set t" by (auto simp: e)
  have t': "set_prop k v t = t @ [(k, v)]"
    using fresh by (simp add: set_prop_def update_fresh)
  from Cons.prems have d: "distinct (map fst ps)" by simp
  from Cons.prems have disj: "fst ` set ps \<inter> fst ` set (t @ [(k, v)]) = {}"
    by (auto simp: e)
  show ?case
    using Cons.IH [OF d disj] by (simp add: e spread_Cons t')
qed

lemma spread_distinct: "distinct (map fst ps) \<Longrightarrow> spread ps [] = ps"
  using spread_fresh [of ps "[]"] by simp

lemma constructor_ipc:
  "ipcHandlers (PluginConfig_constructor plugins getOptions inherited n options s) = ipcHandlers s"
  "ipcListeners (PluginConfig_constructor plugins getOptions inherited n options s) = ipcListeners s"
  by (simp_all add: PluginConfig_constructor_def alloc_def setupFront_id Let_def split: option.split prod.split)

lemma constructor_defaults:
  assumes "allocated s0 (plugins n)"
    and "s = PluginConfig_constructor plugins getOptions inherited n options s0"
  shows "config s \<noteq> defaultConfig s"
    and "props (heap s (defaultConfig s)) = source_entries s0 (plugins n)"
  using assms
  by (auto simp: PluginConfig_constructor_def alloc_def Let_def setupFront_id
        allocated_def source_entries_def split: option.splits)

section \<open>Claims\<close>

text \<open>
  C1. The claim asks that a store built with \<^verbatim>\<open>enableFront\<close> true has a handler on
  \<^verbatim>\<open>"<name>-config-<operation>"\<close> for each operation but the two subscription methods. The
  code does not get there: the loop of \<^verbatim>\<open>setupFront\<close> runs over the own properties of the
  instance, the first of them is a data field, and the \<^verbatim>\<open>return\<close> taken for it ends the
  method. So \<^verbatim>\<open>setupFront\<close> changes nothing, and the constructor leaves the handlers and
  the listeners of \<^verbatim>\<open>ipcMain\<close> as they were.
\<close>

theorem setupFront_registers_nothing:
  "setupFront inherited s = s \<and>
   ipcHandlers (PluginConfig_constructor plugins getOptions inherited n
                  \<lparr>enableFront = True, initialOptions = io\<rparr> s) = ipcHandlers s \<and>
   ipcListeners (PluginConfig_constructor plugins getOptions inherited n
                  \<lparr>enableFront = True, initialOptions = io\<rparr> s) = ipcListeners s"
  by (simp add: setupFront_id constructor_ipc)

text \<open>
  C2, as the code has it. For a patch that is a plain object (its keys are distinct, as
  the keys of an object are), \<^verbatim>\<open>setAll\<close> returns normally and: a key of the patch whose
  value differs under \<^verbatim>\<open>!==\<close> from the stored one and is not \<^verbatim>\<open>undefined\<close> gets that value,
  every other key keeps what it had; the trace gains the per-key calls of the differing
  entries in patch order (each with the value then stored), then, if and only if some
  entry differed, one call of each all-subscriber with the final live object, then one
  \<^verbatim>\<open>setOptions\<close> with the final live object. If no entry differs, the live object is
  unchanged and the only new event is that \<^verbatim>\<open>setOptions\<close>.
\<close>

theorem setAll_patch:
  assumes "kind (heap s a) = PlainObject" and "distinct (map fst (props (heap s a)))"
  shows "fst (setAll (JRef a) s) = Inr () \<and>
    map_of (live (snd (setAll (JRef a) s))) key =
      (case map_of (props (heap s a)) key of
         None \<Rightarrow> map_of (live s) key
       | Some v \<Rightarrow> if strict_neq (get_prop (live s) key) v \<and> v \<noteq> JUndefined
                   then Some v else map_of (live s) key) \<and>
    trace (snd (setAll (JRef a) s)) =
      trace s @ concat (map (entry_events s (live s)) (props (heap s a))) @
      (if list_ex (entry_differs (live s)) (props (heap s a))
       then fan_out s (live (snd (setAll (JRef a) s))) else []) @
      [SetOptions (name s) (config s) (live (snd (setAll (JRef a) s)))] \<and>
    (\<not> list_ex (entry_differs (live s)) (props (heap s a)) \<longrightarrow>
       live (snd (setAll (JRef a) s)) = live s \<and>
       trace (snd (setAll (JRef a) s)) = trace s @ [SetOptions (name s) (config s) (live s)]) \<and>
    persist_calls (trace (snd (setAll (JRef a) s))) =
      persist_calls (trace s) @ [(name s, live (snd (setAll (JRef a) s)))]"
proof -
  let ?es = "props (heap s a)"
  have quiet: "\<not> list_ex (entry_differs (live s)) ?es \<longrightarrow>
       live (snd (setAll (JRef a) s)) = live s \<and>
       trace (snd (setAll (JRef a) s)) = trace s @ [SetOptions (name s) (config s) (live s)]"
    by (simp add: setAll_ref_proj loop_no_difference)
  have rest: "fst (setAll (JRef a) s) = Inr () \<and>
    map_of (live (snd (setAll (JRef a) s))) key =
      (case map_of ?es key of
         None \<Rightarrow> map_of (live s) key
       | Some v \<Rightarrow> if strict_neq (get_prop (live s) key) v \<and> v \<noteq> JUndefined
                   then Some v else map_of (live s) key) \<and>
    trace (snd (setAll (JRef a) s)) =
      trace s @ concat (map (entry_events s (live s)) ?es) @
      (if list_ex (entry_differs (live s)) ?es
       then fan_out s (live (snd (setAll (JRef a) s))) else []) @
      [SetOptions (name s) (config s) (live (snd (setAll (JRef a) s)))] \<and>
    persist_calls (trace (snd (setAll (JRef a) s))) =
      persist_calls (trace s) @ [(name s, live (snd (setAll (JRef a) s)))]"
    using assms(2)
    by (simp add: setAll_ref_proj map_of_loop_live loop_events_distinct)
  from quiet rest show ?thesis by blast
qed

theorem setAll_patch_witness:
  "kind (heap demo 2) = PlainObject \<and> distinct (map fst (props (heap demo 2))) \<and>
   list_ex (entry_differs (live demo)) (props (heap demo 2)) \<and>
   fst (setAll (JRef 2) demo) = Inr () \<and>
   map_of (live (snd (setAll (JRef 2) demo))) ''a'' = Some (JNum 1) \<and>
   trace (snd (setAll (JRef 2) demo)) =
     [Notify (Callback 1) (JNum 1),
      NotifyAll (Callback 3) 1 (live (snd (setAll (JRef 2) demo))),
      SetOptions ''demo'' 1 (live (snd (setAll (JRef 2) demo)))] \<and>
   kind (heap demo 0) = PlainObject \<and> distinct (map fst (props (heap demo 0))) \<and>
   \<not> list_ex (entry_differs (live demo)) (props (heap demo 0)) \<and>
   live (snd (setAll (JRef 0) demo)) = live demo \<and>
   trace (snd (setAll (JRef 0) demo)) = [SetOptions ''demo'' 1 (live demo)]"
proof -
  have k: "kind (heap demo 2) = PlainObject" by (simp add: demo_def)
  have d: "distinct (map fst (props (heap demo 2)))" by (simp add: demo_def)
  have p: "props (heap demo 2) = [(''a'', JNum 1), (''b'', JNum 2)]" by (simp add: demo_def)
  have k0: "kind (heap demo 0) = PlainObject" by (simp add: demo_def)
  have d0: "distinct (map fst (props (heap demo 0)))" by (simp add: demo_def)
  have p0: "props (heap demo 0) = [(''a'', JNum 0), (''b'', JNum 2)]" by (simp add: demo_def)
  have l: "live demo = [(''a'', JNum 0), (''b'', JNum 2)]" by (simp add: demo_def live_def)
  have f: "name demo = ''demo''" "config demo = 1" "trace demo = []"
    "subscribers demo ''a'' = Some (Callback 1)" "subscribers demo ''b'' = Some (Callback 2)"
    "allSubscribers demo = [Callback 3]"
    by (simp_all add: demo_def)
  have ex: "list_ex (entry_differs (live demo)) (props (heap demo 2))"
    by (simp add: p l entry_differs_def get_prop_def strict_neq_def)
  have nex: "\<not> list_ex (entry_differs (live demo)) (props (heap demo 0))"
    by (simp add: p0 l entry_differs_def get_prop_def strict_neq_def)
  have one: "fst (setAll (JRef 2) demo) = Inr () \<and>
     map_of (live (snd (setAll (JRef 2) demo))) ''a'' = Some (JNum 1) \<and>
     trace (snd (setAll (JRef 2) demo)) =
       [Notify (Callback 1) (JNum 1),
        NotifyAll (Callback 3) 1 (live (snd (setAll (JRef 2) demo))),
        SetOptions ''demo'' 1 (live (snd (setAll (JRef 2) demo)))]"
    using setAll_patch [OF k d, of "''a''"]
    by (simp add: p l f entry_events_def entry_differs_def fan_out_def subscriber_call_def
          get_prop_def strict_neq_def)
  have two: "live (snd (setAll (JRef 0) demo)) = live demo \<and>
     trace (snd (setAll (JRef 0) demo)) = [SetOptions ''demo'' 1 (live demo)]"
    using setAll_patch [OF k0 d0, of "''a''", THEN conjunct2, THEN conjunct2, THEN conjunct2,
        THEN conjunct1, THEN mp, OF nex]
    by (simp add: f)
  from k d ex one k0 d0 nex two show ?thesis by blast
qed

text \<open>
  C2 as stated ties the fan-out to a stored value that actually changed. With the live
  object \<^verbatim>\<open>{a: 0, b: 2}\<close> and the patch \<^verbatim>\<open>{a: undefined}\<close> nothing stored changes, and yet
  the subscriber of \<^verbatim>\<open>a\<close> and the all-subscriber are both called.
\<close>

theorem setAll_undefined_entry_fans_out:
  "props (heap demo 4) = [(''a'', JUndefined)] \<and>
   live demo = [(''a'', JNum 0), (''b'', JNum 2)] \<and>
   live (snd (setAll (JRef 4) demo)) = live demo \<and>
   trace demo = [] \<and>
   trace (snd (setAll (JRef 4) demo)) =
     [Notify (Callback 1) (JNum 0),
      NotifyAll (Callback 3) 1 [(''a'', JNum 0), (''b'', JNum 2)],
      SetOptions ''demo'' 1 [(''a'', JNum 0), (''b'', JNum 2)]]"
proof -
  have p: "props (heap demo 4) = [(''a'', JUndefined)]" by (simp add: demo_def)
  have l: "live demo = [(''a'', JNum 0), (''b'', JNum 2)]" by (simp add: demo_def live_def)
  have f: "name demo = ''demo''" "config demo = 1" "trace demo = []"
    "subscribers demo ''a'' = Some (Callback 1)" "allSubscribers demo = [Callback 3]"
    by (simp_all add: demo_def)
  show ?thesis
    by (simp add: setAll_ref_proj p l f entry_differs_def fan_out_def subscriber_call_def
          get_prop_def strict_neq_def)
qed

text \<open>
  C3, as the code has it. An argument that is \<^verbatim>\<open>null\<close> or whose \<^verbatim>\<open>typeof\<close> is not
  \<^verbatim>\<open>'object'\<close> (a number such as 42, \<^verbatim>\<open>undefined\<close>, a string, a boolean, a function) makes
  \<^verbatim>\<open>setAll\<close> throw \<^verbatim>\<open>Error('Options must be an object.')\<close> and leaves the whole state as
  it was: the live object, both subscriber collections and the trace, so nothing is
  notified and nothing is saved.
\<close>

theorem setAll_rejects_non_object:
  "v = JNull \<or> typeof v \<noteq> ''object'' \<Longrightarrow>
   setAll v s = (Inl (Error ''Options must be an object.''), s)"
  by (cases v) (simp_all add: setAll_def)

theorem setAll_rejects_non_object_witness:
  "(JNum 42 = JNull \<or> typeof (JNum 42) \<noteq> ''object'') \<and>
   setAll (JNum 42) demo = (Inl (Error ''Options must be an object.''), demo)"
  using setAll_rejects_non_object [of "JNum 42" demo] by simp

text \<open>
  C3 as stated (every non-mapping argument is rejected) fails for an array: it is not a
  mapping, \<^verbatim>\<open>setAll\<close> returns normally, the live object gains the property \<^verbatim>\<open>0\<close> and the
  object is saved.
\<close>

theorem setAll_accepts_array:
  "kind (heap demo 3) = ArrayObject \<and>
   props (heap demo 3) = [(''0'', JNum 5)] \<and>
   get ''0'' demo = JUndefined \<and>
   fst (setAll (JRef 3) demo) = Inr () \<and>
   get ''0'' (snd (setAll (JRef 3) demo)) = JNum 5 \<and>
   persist_calls (trace demo) = [] \<and>
   persist_calls (trace (snd (setAll (JRef 3) demo))) =
     [(''demo'', live (snd (setAll (JRef 3) demo)))]"
proof -
  have k: "kind (heap demo 3) = ArrayObject" by (simp add: demo_def)
  have p: "props (heap demo 3) = [(''0'', JNum 5)]" by (simp add: demo_def)
  have l: "live demo = [(''a'', JNum 0), (''b'', JNum 2)]" by (simp add: demo_def live_def)
  have t: "trace demo = []" "name demo = ''demo''" by (simp_all add: demo_def)
  show ?thesis
    by (simp add: setAll_ref_proj get_def k p l t get_prop_def set_prop_def strict_neq_def)
qed

text \<open>
  C4. After \<^verbatim>\<open>set(key, v)\<close>, \<^verbatim>\<open>get(key)\<close> is \<^verbatim>\<open>v\<close>. The call adds to the trace, in this
  order, the call of the per-key subscriber of \<^verbatim>\<open>key\<close> with \<^verbatim>\<open>v\<close>, the calls of all
  all-subscribers with the updated live object, and one \<^verbatim>\<open>setOptions\<close> with the updated
  live object: the object is mutated before anyone is notified, and saved last, once.
\<close>

theorem set_then_get:
  "get key (set_key key v s) = v \<and>
   live (set_key key v s) = set_prop key v (live s) \<and>
   trace (set_key key v s) =
     trace s @ subscriber_call s key v @ fan_out s (live (set_key key v s)) @
     [SetOptions (name s) (config s) (live (set_key key v s))] \<and>
   persist_calls (trace (set_key key v s)) =
     persist_calls (trace s) @ [(name s, live (set_key key v s))]"
  by (simp add: set_key_eq get_def live_def get_prop_set_prop)

text \<open>
  C5. The live object has \<^verbatim>\<open>a\<close> different from 1 and \<^verbatim>\<open>b\<close> equal to 2, both fields have
  a per-key subscriber, and the patch is \<^verbatim>\<open>{a: 1, b: 2}\<close>. Then \<^verbatim>\<open>setAll\<close> calls the
  subscriber of \<^verbatim>\<open>a\<close> with 1 and not the one of \<^verbatim>\<open>b\<close>, then each all-subscriber once with
  the live object in which \<^verbatim>\<open>a\<close> is 1 and \<^verbatim>\<open>b\<close> is 2, then \<^verbatim>\<open>setOptions\<close> once.
\<close>

theorem setAll_one_of_two_changes:
  assumes "props (heap s p) = [(''a'', JNum 1), (''b'', JNum 2)]"
    and "get ''a'' s \<noteq> JNum 1" and "get ''b'' s = JNum 2"
    and "subscribers s ''a'' = Some fa" and "subscribers s ''b'' = Some fb"
  shows "fst (setAll (JRef p) s) = Inr () \<and>
    get ''a'' (snd (setAll (JRef p) s)) = JNum 1 \<and>
    get ''b'' (snd (setAll (JRef p) s)) = JNum 2 \<and>
    trace (snd (setAll (JRef p) s)) =
      trace s @ [Notify fa (JNum 1)] @ fan_out s (live (snd (setAll (JRef p) s))) @
      [SetOptions (name s) (config s) (live (snd (setAll (JRef p) s)))] \<and>
    persist_calls (trace (snd (setAll (JRef p) s))) =
      persist_calls (trace s) @ [(name s, live (snd (setAll (JRef p) s)))]"
  using assms
  by (simp add: setAll_ref_proj get_def entry_differs_def subscriber_call_def strict_neq_def
        get_prop_set_prop)

theorem setAll_one_of_two_changes_witness:
  "props (heap demo 2) = [(''a'', JNum 1), (''b'', JNum 2)] \<and>
   get ''a'' demo \<noteq> JNum 1 \<and> get ''b'' demo = JNum 2 \<and>
   subscribers demo ''a'' = Some (Callback 1) \<and> subscribers demo ''b'' = Some (Callback 2) \<and>
   fst (setAll (JRef 2) demo) = Inr () \<and>
   get ''a'' (snd (setAll (JRef 2) demo)) = JNum 1 \<and>
   get ''b'' (snd (setAll (JRef 2) demo)) = JNum 2 \<and>
   trace (snd (setAll (JRef 2) demo)) =
     [Notify (Callback 1) (JNum 1),
      NotifyAll (Callback 3) 1 (live (snd (setAll (JRef 2) demo))),
      SetOptions ''demo'' 1 (live (snd (setAll (JRef 2) demo)))]"
proof -
  have p: "props (heap demo 2) = [(''a'', JNum 1), (''b'', JNum 2)]" by (simp add: demo_def)
  have a: "get ''a'' demo \<noteq> JNum 1" by (simp add: demo_def get_def live_def get_prop_def)
  have b: "get ''b'' demo = JNum 2" by (simp add: demo_def get_def live_def get_prop_def)
  have sa: "subscribers demo ''a'' = Some (Callback 1)" by (simp add: demo_def)
  have sb: "subscribers demo ''b'' = Some (Callback 2)" by (simp add: demo_def)
  have f: "name demo = ''demo''" "config demo = 1" "trace demo = []"
    "allSubscribers demo = [Callback 3]"
    by (simp_all add: demo_def)
  show ?thesis
    using setAll_one_of_two_changes [OF p a b sa sb] p a b sa sb
    by (simp add: f fan_out_def)
qed

text \<open>
  C6. \<^verbatim>\<open>setAndMaybeRestart(key, v)\<close> stores \<^verbatim>\<open>v\<close> under \<^verbatim>\<open>key\<close>, passes the updated live
  object to \<^verbatim>\<open>setMenuOptions\<close>, then calls the per-key subscriber of \<^verbatim>\<open>key\<close> and all
  all-subscribers, and adds no call of \<^verbatim>\<open>setOptions\<close> to the trace.
\<close>

theorem setAndMaybeRestart_skips_persistence:
  "get key (setAndMaybeRestart key v s) = v \<and>
   live (setAndMaybeRestart key v s) = set_prop key v (live s) \<and>
   trace (setAndMaybeRestart key v s) =
     trace s @ [SetMenuOptions (name s) (config s) (live (setAndMaybeRestart key v s))] @
     subscriber_call s key v @ fan_out s (live (setAndMaybeRestart key v s)) \<and>
   persist_calls (trace (setAndMaybeRestart key v s)) = persist_calls (trace s)"
  by (simp add: setAndMaybeRestart_eq get_def live_def get_prop_set_prop)

text \<open>
  C7. Subscribing \<^verbatim>\<open>c1\<close> and then \<^verbatim>\<open>c2\<close> for the field \<^verbatim>\<open>f\<close> leaves the store exactly as
  subscribing \<^verbatim>\<open>c2\<close> alone does: \<^verbatim>\<open>c2\<close> is the per-key subscriber of \<^verbatim>\<open>f\<close>, and the next
  change of \<^verbatim>\<open>f\<close> (a notification, or a \<^verbatim>\<open>set\<close>) calls \<^verbatim>\<open>c2\<close> as the only per-key
  subscriber.
\<close>

theorem subscribe_last_wins:
  "subscribe f c2 (subscribe f c1 s) = subscribe f c2 s \<and>
   subscribers (subscribe f c2 (subscribe f c1 s)) f = Some c2 \<and>
   trace (onChange f single (subscribe f c2 (subscribe f c1 s))) =
     trace s @ [Notify c2 (get f s)] @ (if single then fan_out s (live s) else []) \<and>
   trace (set_key f v (subscribe f c2 (subscribe f c1 s))) =
     trace s @ [Notify c2 v] @ fan_out s (set_prop f v (live s)) @
     [SetOptions (name s) (config s) (set_prop f v (live s))]"
  by (simp add: subscribe_def set_key_eq onChange_eq subscriber_call_def fan_out_def live_def get_def)

text \<open>
  C8. When the table of defaults has no entry for the plugin, the constructor takes an
  empty object as the defaults and raises nothing (it has no failing branch), and the
  live object has exactly the properties of the override source: those of
  \<^verbatim>\<open>initialOptions\<close> if given, else of what \<^verbatim>\<open>getOptions\<close> returns, else none. The source
  is an allocated object, with distinct keys as every object has.
\<close>

theorem constructor_without_defaults:
  assumes "plugins n = None"
    and "allocated s0 (overrideSource getOptions n options)"
    and "distinct (map fst (source_entries s0 (overrideSource getOptions n options)))"
    and "s = PluginConfig_constructor plugins getOptions inherited n options s0"
  shows "props (heap s (defaultConfig s)) = [] \<and>
         live s = source_entries s0 (overrideSource getOptions n options)"
  using assms
  by (auto simp: PluginConfig_constructor_def alloc_def Let_def setupFront_id live_def
        overrideSource_def allocated_def source_entries_def spread_distinct
        split: option.splits)

theorem constructor_without_defaults_witness:
  "Map.empty ''other'' = (None :: addr option) \<and>
   allocated demo (overrideSource (\<lambda>n. None) ''other'' \<lparr>enableFront = True, initialOptions = Some 2\<rparr>) \<and>
   distinct (map fst (source_entries demo
      (overrideSource (\<lambda>n. None) ''other'' \<lparr>enableFront = True, initialOptions = Some 2\<rparr>))) \<and>
   live (PluginConfig_constructor Map.empty (\<lambda>n. None) [] ''other''
           \<lparr>enableFront = True, initialOptions = Some 2\<rparr> demo) =
     [(''a'', JNum 1), (''b'', JNum 2)]"
proof -
  let ?o = "\<lparr>enableFront = True, initialOptions = Some 2\<rparr>"
  have src: "overrideSource (\<lambda>n. None) ''other'' ?o = Some 2"
    by (simp add: overrideSource_def)
  have a: "allocated demo (overrideSource (\<lambda>n. None) ''other'' ?o)"
    by (simp add: src allocated_def demo_def)
  have e: "source_entries demo (overrideSource (\<lambda>n. None) ''other'' ?o) = [(''a'', JNum 1), (''b'', JNum 2)]"
    by (simp add: src source_entries_def demo_def)
  have d: "distinct (map fst (source_entries demo (overrideSource (\<lambda>n. None) ''other'' ?o)))"
    by (simp add: e)
  have n: "Map.empty ''other'' = (None :: addr option)" by simp
  show ?thesis
    using constructor_without_defaults [OF n a d refl, of "[]"] a d
    by (simp add: e)
qed

text \<open>
  C9. For a store as the constructor builds it (the entry of the defaults table, if there
  is one, is an allocated object), after any sequence of \<^verbatim>\<open>set\<close>, \<^verbatim>\<open>setAll\<close> and
  \<^verbatim>\<open>setAndMaybeRestart\<close> calls \<^verbatim>\<open>getDefaultConfig\<close> returns the same object as before, that
  object is unchanged on the heap, and its properties are those the table gave at
  construction (none if the table had no entry).
\<close>

theorem defaults_never_mutated:
  assumes "allocated s0 (plugins n)"
    and "s = PluginConfig_constructor plugins getOptions inherited n options s0"
  shows "getDefaultConfig (do_calls cs s) = getDefaultConfig s \<and>
         heap (do_calls cs s) (getDefaultConfig s) = heap s (getDefaultConfig s) \<and>
         props (heap (do_calls cs s) (getDefaultConfig (do_calls cs s))) =
           source_entries s0 (plugins n)"
  using constructor_defaults [OF assms] do_calls_frame [of cs s "defaultConfig s"]
  by (simp add: getDefaultConfig_def)

theorem defaults_never_mutated_witness:
  "allocated demo ([''demo'' \<mapsto> 0] ''demo'') \<and>
   getDefaultConfig
     (do_calls [Set ''a'' (JNum 7), SetAll (JRef 2), SetAndMaybeRestart ''b'' (JNum 9), SetAll (JNum 42)]
        (PluginConfig_constructor [''demo'' \<mapsto> 0] (\<lambda>n. None) [] ''demo''
           \<lparr>enableFront = False, initialOptions = None\<rparr> demo)) = 0 \<and>
   props (heap
     (do_calls [Set ''a'' (JNum 7), SetAll (JRef 2), SetAndMaybeRestart ''b'' (JNum 9), SetAll (JNum 42)]
        (PluginConfig_constructor [''demo'' \<mapsto> 0] (\<lambda>n. None) [] ''demo''
           \<lparr>enableFront = False, initialOptions = None\<rparr> demo)) 0) =
     [(''a'', JNum 0), (''b'', JNum 2)]"
proof -
  let ?s = "PluginConfig_constructor [''demo'' \<mapsto> 0] (\<lambda>n. None) [] ''demo''
           \<lparr>enableFront = False, initialOptions = None\<rparr> demo"
  let ?cs = "[Set ''a'' (JNum 7), SetAll (JRef 2), SetAndMaybeRestart ''b'' (JNum 9), SetAll (JNum 42)]"
  have a: "allocated demo ([''demo'' \<mapsto> 0] ''demo'')"
    by (simp add: allocated_def demo_def)
  have d: "getDefaultConfig ?s = 0"
    by (simp add: getDefaultConfig_def PluginConfig_constructor_def alloc_def Let_def)
  have e: "source_entries demo (Some 0) = [(''a'', JNum 0), (''b'', JNum 2)]"
    by (simp add: source_entries_def demo_def)
  note th = defaults_never_mutated [where plugins = "[''demo'' \<mapsto> 0]" and n = "''demo''"
        and ?s0.0 = demo and getOptions = "\<lambda>n. None" and inherited = "[]"
        and options = "\<lparr>enableFront = False, initialOptions = None\<rparr>" and cs = ?cs and s = ?s,
        OF a refl]
  have g: "getDefaultConfig (do_calls ?cs ?s) = 0"
    using th [THEN conjunct1] by (simp only: d)
  have "props (heap (do_calls ?cs ?s) (getDefaultConfig (do_calls ?cs ?s))) =
      source_entries demo ([''demo'' \<mapsto> 0] ''demo'')"
    by (rule th [THEN conjunct2, THEN conjunct2])
  then have p: "props (heap (do_calls ?cs ?s) 0) = [(''a'', JNum 0), (''b'', JNum 2)]"
    by (simp add: g e)
  from a g p show ?thesis by (simp only: simp_thms)
qed

text \<open>
  C10. \<^verbatim>\<open>setAll\<close> throws exactly when its argument is \<^verbatim>\<open>undefined\<close>, \<^verbatim>\<open>null\<close>, or of a
  \<^verbatim>\<open>typeof\<close> other than \<^verbatim>\<open>'object'\<close>. An array is none of these: \<^verbatim>\<open>setAll\<close> returns
  normally, runs its loop over the array's entries, and saves.
\<close>

theorem setAll_guard:
  "(fst (setAll v s) = Inl (Error ''Options must be an object.'')) =
     (v = JUndefined \<or> v = JNull \<or> typeof v \<noteq> ''object'') \<and>
   (kind (heap s a) = ArrayObject \<longrightarrow>
      fst (setAll (JRef a) s) = Inr () \<and>
      live (snd (setAll (JRef a) s)) = loop_live (props (heap s a)) (live s) \<and>
      persist_calls (trace (snd (setAll (JRef a) s))) =
        persist_calls (trace s) @ [(name s, live (snd (setAll (JRef a) s)))])"
proof -
  have "(fst (setAll v s) = Inl (Error ''Options must be an object.'')) =
     (v = JUndefined \<or> v = JNull \<or> typeof v \<noteq> ''object'')"
    by (cases v) (simp_all add: setAll_def split: prod.split)
  then show ?thesis
    by (simp add: setAll_ref_proj)
qed

theorem setAll_guard_witness:
  "kind (heap demo 3) = ArrayObject \<and>
   fst (setAll (JRef 3) demo) \<noteq> Inl (Error ''Options must be an object.'') \<and>
   fst (setAll (JRef 3) demo) = Inr () \<and>
   get ''0'' (snd (setAll (JRef 3) demo)) = JNum 5 \<and>
   get ''a'' (snd (setAll (JRef 3) demo)) = JNum 0 \<and>
   persist_calls (trace (snd (setAll (JRef 3) demo))) =
     [(''demo'', live (snd (setAll (JRef 3) demo)))] \<and>
   fst (setAll (JNum 42) demo) = Inl (Error ''Options must be an object.'')"
proof -
  have k: "kind (heap demo 3) = ArrayObject" by (simp add: demo_def)
  have l: "loop_live (props (heap demo 3)) (live demo) =
      [(''a'', JNum 0), (''b'', JNum 2), (''0'', JNum 5)]"
    by (simp add: demo_def live_def get_prop_def set_prop_def strict_neq_def)
  have t: "persist_calls (trace demo) = []" "name demo = ''demo''"
    by (simp_all add: demo_def)
  show ?thesis
    using setAll_guard [of "JRef 3" demo 3] setAll_guard [of "JNum 42" demo 3] k
    by (simp add: l t get_def get_prop_def)
qed

end
